theory Spec2Isabelle
  imports Main "HOL-Library.Sublist"
begin

section \<open>The author checklist's new-component detection\<close>

text \<open>
  A shallow embedding of \<^verbatim>\<open>.github/actions/javascript/authorChecklist/newComponentCategory.js\<close>.
  The script receives the files changed by a pull request, keeps the added JavaScript and
  TypeScript files, fetches each of them from GitHub, parses it with \<^verbatim>\<open>@babel/parser\<close>
  and walks the tree with \<^verbatim>\<open>@babel/traverse\<close>, looking for a function declaration that
  returns a JSX element.

  The libraries the script calls (the GitHub client, the parser, the base64 decoder of
  Node's \<^verbatim>\<open>Buffer\<close>) and the values it reads from its surroundings (the pull request's
  head ref, the constants of \<^verbatim>\<open>libs/CONST\<close>) are fields of an environment \<open>env\<close>, so
  every theorem holds for whatever they answer. What the script writes to the console and
  the calls it makes to the GitHub client and to the parser are recorded, in order, as a
  list of events returned beside each result.
\<close>

subsection \<open>Values, errors and events\<close>

text \<open>The exceptions that can be thrown: by JavaScript itself (\<open>TypeError\<close>), by the
  parser (\<open>SyntaxError\<close>) and by the GitHub client (\<open>HttpError\<close>, with the status code).\<close>

datatype error = TypeError | SyntaxError | HttpError nat

text \<open>
  What \<^verbatim>\<open>detectReactComponent\<close> can receive as \<^verbatim>\<open>code\<close>: a string, nothing
  (\<^verbatim>\<open>undefined\<close> or \<^verbatim>\<open>null\<close>), or the response object itself when the response has
  no \<^verbatim>\<open>content\<close> key.
\<close>

datatype code = Text string | Undefined | Object

text \<open>\<^verbatim>\<open>!code\<close>: the empty string, \<^verbatim>\<open>undefined\<close> and \<^verbatim>\<open>null\<close> are falsy, every other
  string and every object is truthy.\<close>

fun falsy :: "code \<Rightarrow> bool" where
  "falsy (Text s) = (s = [])"
| "falsy Undefined = True"
| "falsy Object = False"

text \<open>
  The \<^verbatim>\<open>data\<close> of a response of \<^verbatim>\<open>octokit.repos.getContent\<close>: an object with a
  \<^verbatim>\<open>content\<close> key (whose value may be missing), an object or array without that key, or
  a primitive string.
\<close>

datatype data = ContentObject "string option" | OtherObject | RawString string

record params =
  owner :: string
  repo :: string
  path :: string
  ref :: string

record parser_options =
  sourceType :: string
  plugins :: "string list"

datatype event =
    GetContent params
  | Parse code parser_options
  | ConsoleLogDetected string
  | ConsoleErrorNoCode code string
  | ConsoleErrorApi error params

subsection \<open>Syntax trees\<close>

text \<open>
  The nodes of Babel's syntax tree that the script tells apart, each with the child nodes
  that \<^verbatim>\<open>traverse\<close> visits, and \<open>Other\<close> for every other kind of node, with that kind and
  its children in visiting order. A function's \<open>id\<close> is its name, or \<open>None\<close> for
  \<^verbatim>\<open>id: null\<close> (as in \<^verbatim>\<open>export default function () {}\<close>); its last field is
  \<^verbatim>\<open>node.body.body\<close>, the statement list of its body, which the grammar makes a block.
  A return statement's field is \<^verbatim>\<open>node.argument\<close>, \<open>None\<close> for \<^verbatim>\<open>return;\<close>.
\<close>

datatype kind =
    IfStatement | ExpressionStatement | VariableDeclaration | VariableDeclarator
  | ClassDeclaration | ClassExpression | ClassBody
  | ExportNamedDeclaration | ExportDefaultDeclaration
  | CallExpression | ConditionalExpression | Identifier | NumericLiteral | StringLiteral
  | NullLiteral | JSXFragment | JSXExpressionContainer | JSXText
  | JSXOpeningElement | JSXClosingElement | JSXIdentifier | JSXAttribute

datatype node =
    File node
  | Program "node list"
  | FunctionDeclaration "string option" "node list" "node list"
  | FunctionExpression "string option" "node list" "node list"
  | ArrowFunctionExpression "node list" node
  | ClassMethod string "node list" "node list"
  | BlockStatement "node list"
  | ReturnStatement "node option"
  | JSXElement "node list"
  | Other kind "node list"

subsection \<open>The environment\<close>

record env =
  getContent :: "params \<Rightarrow> error + data"
  parse :: "code \<Rightarrow> parser_options \<Rightarrow> error + node"
  base64ToUtf8 :: "string \<Rightarrow> string"
  head_ref :: "string option"
  GITHUB_OWNER :: string
  APP_REPO :: string

text \<open>
  \<open>getContent\<close> is \<^verbatim>\<open>GithubUtils.octokit.repos.getContent\<close>, \<open>parse\<close> is the parser,
  \<open>base64ToUtf8\<close> is \<^verbatim>\<open>Buffer.from(data, 'base64').toString('utf-8')\<close>, which never
  throws. \<open>head_ref\<close> is \<^verbatim>\<open>github.context.payload.pull_request.head.ref\<close>, \<open>None\<close> when
  the payload has no pull request, so that reading it throws.
\<close>

subsection \<open>\<^verbatim>\<open>traverse\<close>\<close>

text \<open>The children of a node, in the order \<^verbatim>\<open>traverse\<close> visits them.\<close>

fun children :: "node \<Rightarrow> node list" where
  "children (File program) = [program]"
| "children (Program body) = body"
| "children (FunctionDeclaration fid ps body) = ps @ [BlockStatement body]"
| "children (FunctionExpression fid ps body) = ps @ [BlockStatement body]"
| "children (ArrowFunctionExpression ps body) = ps @ [body]"
| "children (ClassMethod key ps body) = ps @ [BlockStatement body]"
| "children (BlockStatement body) = body"
| "children (ReturnStatement None) = []"
| "children (ReturnStatement (Some argument)) = [argument]"
| "children (JSXElement cs) = cs"
| "children (Other k cs) = cs"

text \<open>Running a step over a list, left to right, until one throws. A step takes the state
  and returns the thrown error, if any, and the state it leaves.\<close>

fun traverse_list :: "('a \<Rightarrow> 's \<Rightarrow> error option \<times> 's) \<Rightarrow> 'a list \<Rightarrow> 's \<Rightarrow> error option \<times> 's" where
  "traverse_list f [] s = (None, s)"
| "traverse_list f (x # xs) s =
     (case f x s of
        (Some e, s') \<Rightarrow> (Some e, s')
      | (None, s') \<Rightarrow> traverse_list f xs s')"

lemma traverse_list_cong [fundef_cong]:
  "xs = ys \<Longrightarrow> s = t \<Longrightarrow> (\<And>x u. x \<in> set ys \<Longrightarrow> f x u = g x u)
   \<Longrightarrow> traverse_list f xs s = traverse_list g ys t"
proof (induction ys arbitrary: xs s t)
  case Nil
  then show ?case by simp
next
  case (Cons y ys)
  have "g y t = f y t" using Cons.prems by simp
  moreover have "traverse_list f ys u = traverse_list g ys u" for u
    using Cons.IH [of ys u u] Cons.prems by simp
  ultimately show ?case using Cons.prems by (simp split: prod.splits option.splits)
qed

fun isFunctionDeclaration :: "node \<Rightarrow> bool" where
  "isFunctionDeclaration (FunctionDeclaration fid ps body) = True"
| "isFunctionDeclaration n = False"

text \<open>Entering a node: the visitor's \<^verbatim>\<open>FunctionDeclaration\<close> handler is called on the
  nodes of that type and on no other.\<close>

definition enter :: "(node \<Rightarrow> 's \<Rightarrow> error option \<times> 's) \<Rightarrow> node \<Rightarrow> 's \<Rightarrow> error option \<times> 's" where
  "enter visitor n s = (if isFunctionDeclaration n then visitor n s else (None, s))"

text \<open>A measure for the walk: the block of a function without parameters is as large as
  the function, so blocks are ranked just below the other nodes of their size.\<close>

fun rank :: "node \<Rightarrow> nat" where
  "rank (BlockStatement body) = 2 * size (BlockStatement body)"
| "rank n = 2 * size n + 1"

lemma size_member: "(c::node) \<in> set cs \<Longrightarrow> size c \<le> size_list size cs"
  using size_list_estimation' [of c cs "size c" size] by simp

lemma rank_le: "rank c \<le> 2 * size c + 1"
  by (cases c) simp_all

lemma rank_member: "c \<in> set cs \<Longrightarrow> rank c \<le> 2 * size_list size cs + 1"
  using size_member [of c cs] rank_le [of c] by linarith

lemma rank_children: "c \<in> set (children n) \<Longrightarrow> rank c < rank n"
proof (induction n rule: children.induct)
  case (1 program)
  then show ?case using rank_le [of program] by simp
next
  case (5 ps body)
  then show ?case using rank_member [of c ps] rank_le [of body] by auto
next
  case (9 argument)
  then show ?case using rank_le [of argument] by simp
qed (use rank_member [of c] in \<open>fastforce+\<close>)

text \<open>
  \<^verbatim>\<open>traverse(ast, {FunctionDeclaration(path) {...}})\<close>: a depth-first walk of the whole
  tree that calls the handler when it enters a function declaration, then walks the
  node's children. The handler never skips or stops the walk, so only an exception ends
  it early.
\<close>

function traverse :: "(node \<Rightarrow> 's \<Rightarrow> error option \<times> 's) \<Rightarrow> node \<Rightarrow> 's \<Rightarrow> error option \<times> 's" where
  "traverse visitor n s =
     (case enter visitor n s of
        (Some e, s') \<Rightarrow> (Some e, s')
      | (None, s') \<Rightarrow> traverse_list (traverse visitor) (children n) s')"
  by pat_completeness auto
termination
  by (relation "measure (\<lambda>(visitor, n, s). rank n)") (auto simp: rank_children)

declare traverse.simps [simp del]

subsection \<open>\<^verbatim>\<open>detectReactComponent\<close>\<close>

text \<open>\<^verbatim>\<open>_.some(collection, predicate)\<close>: true at the first element the predicate accepts; an
  exception of the predicate ends it.\<close>

fun some :: "('a \<Rightarrow> error + bool) \<Rightarrow> 'a list \<Rightarrow> error + bool" where
  "some predicate [] = Inr False"
| "some predicate (x # xs) =
     (case predicate x of
        Inl e \<Rightarrow> Inl e
      | Inr b \<Rightarrow> if b then Inr True else some predicate xs)"

fun isJSXElement :: "node \<Rightarrow> bool" where
  "isJSXElement (JSXElement cs) = True"
| "isJSXElement n = False"

text \<open>\<^verbatim>\<open>(node) => node.type === 'ReturnStatement' && node.argument.type === 'JSXElement'\<close>:
  reading \<^verbatim>\<open>type\<close> of the \<^verbatim>\<open>null\<close> argument of \<^verbatim>\<open>return;\<close> throws.\<close>

fun returnsJSXElement :: "node \<Rightarrow> error + bool" where
  "returnsJSXElement (ReturnStatement None) = Inl TypeError"
| "returnsJSXElement (ReturnStatement (Some argument)) = Inr (isJSXElement argument)"
| "returnsJSXElement n = Inr False"

text \<open>What the handler reads and writes: the variable \<^verbatim>\<open>isReactComponent\<close> of the
  enclosing call and the console.\<close>

record walk =
  isReactComponent :: bool
  console :: "event list"

fun FunctionDeclaration_handler :: "string \<Rightarrow> node \<Rightarrow> walk \<Rightarrow> error option \<times> walk" where
  "FunctionDeclaration_handler file_name (FunctionDeclaration fid ps body) w =
     (if isReactComponent w then (None, w)
      else if fid = None then (None, w)
      else case some returnsJSXElement body of
             Inl e \<Rightarrow> (Some e, w)
           | Inr b \<Rightarrow>
               if b then (None, w\<lparr>console := console w @ [ConsoleLogDetected file_name],
                                  isReactComponent := True\<rparr>)
               else (None, w))"
| "FunctionDeclaration_handler file_name n w = (None, w)"

definition parserOptions :: parser_options where
  "parserOptions = \<lparr>sourceType = ''module'', plugins = [''jsx'']\<rparr>"

text \<open>The result is an exception, \<^verbatim>\<open>undefined\<close> (\<open>None\<close>) or a boolean.\<close>

definition detectReactComponent :: "env \<Rightarrow> code \<Rightarrow> string \<Rightarrow> (error + bool option) \<times> event list" where
  "detectReactComponent env code file_name =
     (if falsy code then (Inr None, [ConsoleErrorNoCode code file_name])
      else case parse env code parserOptions of
             Inl e \<Rightarrow> (Inl e, [Parse code parserOptions])
           | Inr ast \<Rightarrow>
               (case traverse (FunctionDeclaration_handler file_name) ast
                       \<lparr>isReactComponent = False, console = []\<rparr> of
                  (Some e, w) \<Rightarrow> (Inl e, Parse code parserOptions # console w)
                | (None, w) \<Rightarrow>
                    (Inr (Some (isReactComponent w)), Parse code parserOptions # console w)))"

subsection \<open>\<^verbatim>\<open>detectReactComponentInFile\<close>\<close>

definition nodeBase64ToUtf8 :: "env \<Rightarrow> string \<Rightarrow> string" where
  "nodeBase64ToUtf8 env d = base64ToUtf8 env d"

text \<open>\<^verbatim>\<open>'content' in data ? nodeBase64ToUtf8(data.content || '') : data\<close>: the operator
  \<^verbatim>\<open>in\<close> throws on a primitive string.\<close>

fun content_of :: "env \<Rightarrow> data \<Rightarrow> error + code" where
  "content_of env (ContentObject c) =
     Inr (Text (nodeBase64ToUtf8 env (case c of None \<Rightarrow> [] | Some s \<Rightarrow> s)))"
| "content_of env OtherObject = Inr Object"
| "content_of env (RawString s) = Inl TypeError"

text \<open>The parameters are built before the \<^verbatim>\<open>try\<close>, so a payload without a pull request
  makes the call throw. Everything thrown inside the \<^verbatim>\<open>try\<close> is logged, and the call then
  returns \<^verbatim>\<open>undefined\<close>.\<close>

definition detectReactComponentInFile :: "env \<Rightarrow> string \<Rightarrow> (error + bool option) \<times> event list" where
  "detectReactComponentInFile env file_name =
     (case head_ref env of
        None \<Rightarrow> (Inl TypeError, [])
      | Some r \<Rightarrow>
          (let ps = \<lparr>owner = GITHUB_OWNER env, repo = APP_REPO env, path = file_name, ref = r\<rparr>
           in case getContent env ps of
                Inl e \<Rightarrow> (Inr None, [GetContent ps, ConsoleErrorApi e ps])
              | Inr d \<Rightarrow>
                  (case content_of env d of
                     Inl e \<Rightarrow> (Inr None, [GetContent ps, ConsoleErrorApi e ps])
                   | Inr content \<Rightarrow>
                       (case detectReactComponent env content file_name of
                          (Inl e, evs) \<Rightarrow> (Inr None, GetContent ps # evs @ [ConsoleErrorApi e ps])
                        | (Inr result, evs) \<Rightarrow> (Inr result, GetContent ps # evs)))))"

subsection \<open>\<^verbatim>\<open>filterFiles\<close> and \<^verbatim>\<open>detectFunction\<close>\<close>

record changed_file =
  filename :: string
  status :: string

definition endsWith :: "string \<Rightarrow> string \<Rightarrow> bool" where
  "endsWith s t = suffix t s"

definition filterFiles :: "changed_file \<Rightarrow> bool" where
  "filterFiles f =
     (if status f \<noteq> ''added'' then False
      else endsWith (filename f) ''.js'' \<or> endsWith (filename f) ''.jsx''
         \<or> endsWith (filename f) ''.ts'' \<or> endsWith (filename f) ''.tsx'')"

text \<open>\<^verbatim>\<open>if (result)\<close>: \<^verbatim>\<open>undefined\<close> and \<^verbatim>\<open>false\<close> are falsy.\<close>

fun truthy :: "bool option \<Rightarrow> bool" where
  "truthy None = False"
| "truthy (Some b) = b"

text \<open>The loop over the filtered files.\<close>

fun detect_loop :: "env \<Rightarrow> changed_file list \<Rightarrow> (error + bool) \<times> event list" where
  "detect_loop env [] = (Inr False, [])"
| "detect_loop env (file # files) =
     (case detectReactComponentInFile env (filename file) of
        (Inl e, evs) \<Rightarrow> (Inl e, evs)
      | (Inr result, evs) \<Rightarrow>
          if truthy result then (Inr True, evs)
          else (case detect_loop env files of (r, evs') \<Rightarrow> (r, evs @ evs')))"

definition detectFunction :: "env \<Rightarrow> changed_file list \<Rightarrow> (error + bool) \<times> event list" where
  "detectFunction env changedFiles = detect_loop env (filter filterFiles changedFiles)"

text \<open>The request of \<^verbatim>\<open>detectReactComponentInFile\<close> for a path, at the head ref \<open>r\<close>.\<close>

abbreviation file_request :: "env \<Rightarrow> string \<Rightarrow> string \<Rightarrow> params" where
  "file_request env p r \<equiv> \<lparr>owner = GITHUB_OWNER env, repo = APP_REPO env, path = p, ref = r\<rparr>"

subsection \<open>A sample repository\<close>

text \<open>
  An environment to run the script on: seven files of a pull request, the parser's answer
  for their texts and for three more, and a parser that accepts type annotations only
  under the \<^verbatim>\<open>typescript\<close> plugin. Every other path is missing from the repository, and
  every other text is a syntax error.
\<close>

definition src_component :: string where
  "src_component = ''function Foo() { return <div/>; }''"

definition src_plain :: string where
  "src_plain = ''function foo() { return 1; }''"

definition src_arrow :: string where
  "src_arrow = ''const Foo = () => <div/>;''"

definition src_unbalanced :: string where
  "src_unbalanced = ''function Foo() {''"

definition src_bare :: string where
  "src_bare = ''function Foo() { return; }''"

definition src_nested :: string where
  "src_nested = ''function outer() { function Inner() { return <div/>; } }''"

definition src_typed :: string where
  "src_typed = ''function Foo(p: Props) { return <div/>; }''"

definition src_inner_block :: string where
  "src_inner_block = ''function Foo() { if (x) { return <div/>; } }''"

definition src_class :: string where
  "src_class = ''class Foo { render() { return <div/>; } }''"

definition src_function_expression :: string where
  "src_function_expression = ''const Foo = function () { return <div/>; };''"

definition div_element :: node where
  "div_element = JSXElement [Other JSXOpeningElement [Other JSXIdentifier []]]"

definition ast_component :: node where
  "ast_component =
     File (Program [FunctionDeclaration (Some ''Foo'') [] [ReturnStatement (Some div_element)]])"

definition ast_plain :: node where
  "ast_plain =
     File (Program [FunctionDeclaration (Some ''foo'') []
                      [ReturnStatement (Some (Other NumericLiteral []))]])"

definition ast_arrow :: node where
  "ast_arrow =
     File (Program [Other VariableDeclaration
                      [Other VariableDeclarator
                         [Other Identifier [], ArrowFunctionExpression [] div_element]]])"

definition ast_bare :: node where
  "ast_bare = File (Program [FunctionDeclaration (Some ''Foo'') [] [ReturnStatement None]])"

definition ast_nested :: node where
  "ast_nested =
     File (Program [FunctionDeclaration (Some ''outer'') []
                      [FunctionDeclaration (Some ''Inner'') []
                         [ReturnStatement (Some div_element)]]])"

definition ast_typed :: node where
  "ast_typed =
     File (Program [FunctionDeclaration (Some ''Foo'') [Other Identifier []]
                      [ReturnStatement (Some div_element)]])"

definition ast_inner_block :: node where
  "ast_inner_block =
     File (Program [FunctionDeclaration (Some ''Foo'') []
                      [Other IfStatement
                         [Other Identifier [],
                          BlockStatement [ReturnStatement (Some div_element)]]]])"

definition ast_class :: node where
  "ast_class =
     File (Program [Other ClassDeclaration
                      [Other Identifier [],
                       Other ClassBody
                         [ClassMethod ''render'' [] [ReturnStatement (Some div_element)]]]])"

definition ast_function_expression :: node where
  "ast_function_expression =
     File (Program [Other VariableDeclaration
                      [Other VariableDeclarator
                         [Other Identifier [],
                          FunctionExpression None [] [ReturnStatement (Some div_element)]]]])"

definition sample_parse :: "code \<Rightarrow> parser_options \<Rightarrow> error + node" where
  "sample_parse code opts =
     (if code = Text src_component then Inr ast_component
      else if code = Text src_plain then Inr ast_plain
      else if code = Text src_arrow then Inr ast_arrow
      else if code = Text src_bare then Inr ast_bare
      else if code = Text src_nested then Inr ast_nested
      else if code = Text src_typed \<and> ''typescript'' \<in> set (plugins opts) then Inr ast_typed
      else if code = Text src_inner_block then Inr ast_inner_block
      else if code = Text src_class then Inr ast_class
      else if code = Text src_function_expression then Inr ast_function_expression
      else Inl SyntaxError)"

definition sample_files :: "(string \<times> string) list" where
  "sample_files =
     [(''src/Foo.js'', ''ZnVuY3Rpb24gRm9vKCkgeyByZXR1cm4gPGRpdi8+OyB9''),
      (''src/foo.js'', ''ZnVuY3Rpb24gZm9vKCkgeyByZXR1cm4gMTsgfQ==''),
      (''src/Arrow.js'', ''Y29uc3QgRm9vID0gKCkgPT4gPGRpdi8+Ow==''),
      (''src/Broken.js'', ''ZnVuY3Rpb24gRm9vKCkgew==''),
      (''src/Bare.js'', ''ZnVuY3Rpb24gRm9vKCkgeyByZXR1cm47IH0=''),
      (''src/Nested.js'',
       ''ZnVuY3Rpb24gb3V0ZXIoKSB7IGZ1bmN0aW9uIElubmVyKCkgeyByZXR1cm4gPGRpdi8+OyB9IH0=''),
      (''src/Typed.tsx'', ''ZnVuY3Rpb24gRm9vKHA6IFByb3BzKSB7IHJldHVybiA8ZGl2Lz47IH0='')]"

definition sample_base64 :: "(string \<times> string) list" where
  "sample_base64 =
     [(''ZnVuY3Rpb24gRm9vKCkgeyByZXR1cm4gPGRpdi8+OyB9'', src_component),
      (''ZnVuY3Rpb24gZm9vKCkgeyByZXR1cm4gMTsgfQ=='', src_plain),
      (''Y29uc3QgRm9vID0gKCkgPT4gPGRpdi8+Ow=='', src_arrow),
      (''ZnVuY3Rpb24gRm9vKCkgew=='', src_unbalanced),
      (''ZnVuY3Rpb24gRm9vKCkgeyByZXR1cm47IH0='', src_bare),
      (''ZnVuY3Rpb24gb3V0ZXIoKSB7IGZ1bmN0aW9uIElubmVyKCkgeyByZXR1cm4gPGRpdi8+OyB9IH0='',
       src_nested),
      (''ZnVuY3Rpb24gRm9vKHA6IFByb3BzKSB7IHJldHVybiA8ZGl2Lz47IH0='', src_typed)]"

definition sample_env :: env where
  "sample_env =
     \<lparr>getContent = (\<lambda>ps. case map_of sample_files (path ps) of
                            None \<Rightarrow> Inl (HttpError 404)
                          | Some c \<Rightarrow> Inr (ContentObject (Some c))),
      parse = sample_parse,
      base64ToUtf8 = (\<lambda>d. case map_of sample_base64 d of None \<Rightarrow> [] | Some t \<Rightarrow> t),
      head_ref = Some ''feature'',
      GITHUB_OWNER = ''Expensify'',
      APP_REPO = ''App''\<rparr>"

definition added :: "string \<Rightarrow> changed_file" where
  "added p = \<lparr>filename = p, status = ''added''\<rparr>"

subsection \<open>The properties in the specification's words\<close>

text \<open>An entry with status \<open>added\<close> and a recognized extension.\<close>

definition recognized :: "changed_file \<Rightarrow> bool" where
  "recognized f =
     (status f = ''added'' \<and>
      (\<exists>ext \<in> set [''.js'', ''.jsx'', ''.ts'', ''.tsx'']. suffix ext (filename f)))"

text \<open>Every node of a tree, each before its descendants, in source order.\<close>

function preorder :: "node \<Rightarrow> node list" where
  "preorder n = n # concat (map preorder (children n))"
  by pat_completeness auto
termination
  by (relation "measure rank") (auto simp: rank_children)

declare preorder.simps [simp del]

text \<open>A return statement whose argument is syntactically a JSX element.\<close>

fun jsx_return :: "node \<Rightarrow> bool" where
  "jsx_return (ReturnStatement (Some (JSXElement cs))) = True"
| "jsx_return n = False"

text \<open>A named function declaration whose immediate body statement list contains at least
  one such return statement.\<close>

fun component_declaration :: "node \<Rightarrow> bool" where
  "component_declaration (FunctionDeclaration (Some name) ps body) = list_ex jsx_return body"
| "component_declaration n = False"

text \<open>Some named, top-level function declaration is one: a statement of the program.\<close>

fun top_level_component :: "node \<Rightarrow> bool" where
  "top_level_component (File (Program body)) = list_ex component_declaration body"
| "top_level_component n = False"

text \<open>A return statement without an argument, and a named function declaration with one in
  its immediate body statement list.\<close>

fun bare_return :: "node \<Rightarrow> bool" where
  "bare_return (ReturnStatement None) = True"
| "bare_return n = False"

fun returns_bare :: "node \<Rightarrow> bool" where
  "returns_bare (FunctionDeclaration (Some name) ps body) = list_ex bare_return body"
| "returns_bare n = False"

text \<open>The paths fetched, in order: what a counter of fetch calls observes.\<close>

fun fetched :: "event list \<Rightarrow> string list" where
  "fetched [] = []"
| "fetched (GetContent request # evs) = path request # fetched evs"
| "fetched (e # evs) = fetched evs"

section \<open>Properties\<close>

text \<open>The equations that evaluate the script on the sample repository.\<close>

lemmas sample_defs = sample_env_def sample_parse_def sample_files_def sample_base64_def
  src_component_def src_plain_def src_arrow_def src_unbalanced_def src_bare_def
  src_nested_def src_typed_def src_inner_block_def src_class_def src_function_expression_def
  ast_component_def ast_plain_def ast_arrow_def ast_bare_def ast_nested_def ast_typed_def
  ast_inner_block_def ast_class_def ast_function_expression_def div_element_def added_def

lemmas script_defs = detectFunction_def detectReactComponentInFile_def
  detectReactComponent_def filterFiles_def endsWith_def suffix_to_prefix parserOptions_def
  nodeBase64ToUtf8_def traverse.simps enter_def Let_def

subsection \<open>The walk visits every function declaration\<close>

text \<open>The walk is the handler run over the nodes of the tree in preorder.\<close>

lemma traverse_list_append:
  "traverse_list f (xs @ ys) s =
     (case traverse_list f xs s of
        (Some e, s') \<Rightarrow> (Some e, s')
      | (None, s') \<Rightarrow> traverse_list f ys s')"
  by (induction xs arbitrary: s) (auto split: prod.splits option.splits)

lemma traverse_list_concat:
  assumes "\<And>x u. x \<in> set xs \<Longrightarrow> g x u = traverse_list f (h x) u"
  shows "traverse_list g xs s = traverse_list f (concat (map h xs)) s"
  using assms
  by (induction xs arbitrary: s) (auto simp: traverse_list_append split: prod.splits option.splits)

lemma traverse_preorder: "traverse v n s = traverse_list (enter v) (preorder n) s"
proof (induction n arbitrary: s rule: measure_induct_rule [where f = rank])
  case (less n)
  have "traverse_list (traverse v) (children n) u =
        traverse_list (enter v) (concat (map preorder (children n))) u" for u
    by (rule traverse_list_concat) (simp add: less rank_children)
  then show ?case
    by (simp add: traverse.simps [of v n] preorder.simps [of n] split: prod.splits option.splits)
qed

lemma enter_done:
  "isReactComponent w \<Longrightarrow> enter (FunctionDeclaration_handler f) n w = (None, w)"
  by (cases n) (simp_all add: enter_def)

lemma walk_done:
  "isReactComponent w \<Longrightarrow> traverse_list (enter (FunctionDeclaration_handler f)) ns w = (None, w)"
  by (induction ns) (simp_all add: enter_done)

lemma returnsJSXElement_jsx_return:
  "\<not> bare_return n \<Longrightarrow> returnsJSXElement n = Inr (jsx_return n)"
proof (cases n)
  case (ReturnStatement a)
  assume "\<not> bare_return n"
  then obtain x where "a = Some x" using ReturnStatement by (cases a) auto
  then show ?thesis using ReturnStatement by (cases x) simp_all
qed simp_all

lemma some_jsx_return:
  "\<not> list_ex bare_return body \<Longrightarrow> some returnsJSXElement body = Inr (list_ex jsx_return body)"
  by (induction body) (simp_all add: returnsJSXElement_jsx_return)

lemma enter_safe:
  assumes "\<not> returns_bare n" and "\<not> isReactComponent w"
  shows "enter (FunctionDeclaration_handler f) n w =
           (None, if component_declaration n
                  then w\<lparr>console := console w @ [ConsoleLogDetected f], isReactComponent := True\<rparr>
                  else w)"
proof (cases n)
  case (FunctionDeclaration fid ps body)
  show ?thesis
  proof (cases fid)
    case None
    then show ?thesis using FunctionDeclaration assms by (simp add: enter_def)
  next
    case (Some name)
    then have "some returnsJSXElement body = Inr (list_ex jsx_return body)"
      using assms FunctionDeclaration by (simp add: some_jsx_return)
    then show ?thesis using FunctionDeclaration Some assms by (simp add: enter_def)
  qed
qed (simp_all add: enter_def)

lemma walk_safe:
  assumes "\<not> list_ex returns_bare ns" and "\<not> isReactComponent w"
  shows "traverse_list (enter (FunctionDeclaration_handler f)) ns w =
           (None, if list_ex component_declaration ns
                  then w\<lparr>console := console w @ [ConsoleLogDetected f], isReactComponent := True\<rparr>
                  else w)"
  using assms
proof (induction ns)
  case Nil
  then show ?case by simp
next
  case (Cons n ns)
  then show ?case by (simp add: enter_safe walk_done)
qed

lemma detectReactComponent_walk:
  assumes "\<not> falsy code" and "parse env code parserOptions = Inr ast"
    and "\<not> list_ex returns_bare (preorder ast)"
  shows "detectReactComponent env code file_name =
           (Inr (Some (list_ex component_declaration (preorder ast))),
            Parse code parserOptions #
              (if list_ex component_declaration (preorder ast)
               then [ConsoleLogDetected file_name] else []))"
  using assms
  by (simp add: detectReactComponent_def traverse_preorder walk_safe)

text \<open>
  C1 (as amended). For a source that is not empty and parses, in which no named function
  declaration has \<^verbatim>\<open>return;\<close> in its immediate body statement list,
  \<^verbatim>\<open>detectReactComponent\<close> returns true if and only if some named function declaration,
  at any depth of the tree, has in its immediate body statement list a return statement
  whose argument is a JSX element. Arrow functions, class methods, function expressions and
  returns inside inner blocks never count, since only the statement lists of the function
  declarations are looked at; nested function declarations do count.
\<close>

theorem detectReactComponent_any_depth:
  assumes "\<not> falsy code" and "parse env code parserOptions = Inr ast"
    and "\<not> list_ex returns_bare (preorder ast)"
  shows "fst (detectReactComponent env code file_name) =
           Inr (Some (list_ex component_declaration (preorder ast)))"
  using detectReactComponent_walk [OF assms] by simp

theorem detectReactComponent_any_depth_witness:
  "fst (detectReactComponent sample_env (Text src_nested) ''src/Nested.js'') = Inr (Some True)
   \<and> fst (detectReactComponent sample_env (Text src_arrow) ''src/Arrow.js'') = Inr (Some False)
   \<and> fst (detectReactComponent sample_env (Text src_inner_block) ''src/Inner.js'')
       = Inr (Some False)
   \<and> fst (detectReactComponent sample_env (Text src_class) ''src/Class.js'') = Inr (Some False)
   \<and> fst (detectReactComponent sample_env (Text src_function_expression) ''src/Expr.js'')
       = Inr (Some False)"
proof -
  have n1: "\<not> falsy (Text src_nested)" and a1: "\<not> falsy (Text src_arrow)"
    and b1: "\<not> falsy (Text src_inner_block)" and c1: "\<not> falsy (Text src_class)"
    and e1: "\<not> falsy (Text src_function_expression)"
    by (simp_all add: sample_defs)
  have n2: "parse sample_env (Text src_nested) parserOptions = Inr ast_nested"
    and a2: "parse sample_env (Text src_arrow) parserOptions = Inr ast_arrow"
    and b2: "parse sample_env (Text src_inner_block) parserOptions = Inr ast_inner_block"
    and c2: "parse sample_env (Text src_class) parserOptions = Inr ast_class"
    and e2: "parse sample_env (Text src_function_expression) parserOptions =
             Inr ast_function_expression"
    by (simp_all add: sample_env_def sample_parse_def src_component_def src_plain_def
        src_arrow_def src_bare_def src_nested_def src_typed_def src_inner_block_def
        src_class_def src_function_expression_def)
  have n3: "\<not> list_ex returns_bare (preorder ast_nested)"
    and a3: "\<not> list_ex returns_bare (preorder ast_arrow)"
    and b3: "\<not> list_ex returns_bare (preorder ast_inner_block)"
    and c3: "\<not> list_ex returns_bare (preorder ast_class)"
    and e3: "\<not> list_ex returns_bare (preorder ast_function_expression)"
    by (simp_all add: ast_nested_def ast_arrow_def ast_inner_block_def ast_class_def
        ast_function_expression_def div_element_def preorder.simps)
  have n4: "list_ex component_declaration (preorder ast_nested)"
    and a4: "\<not> list_ex component_declaration (preorder ast_arrow)"
    and b4: "\<not> list_ex component_declaration (preorder ast_inner_block)"
    and c4: "\<not> list_ex component_declaration (preorder ast_class)"
    and e4: "\<not> list_ex component_declaration (preorder ast_function_expression)"
    by (simp_all add: ast_nested_def ast_arrow_def ast_inner_block_def ast_class_def
        ast_function_expression_def div_element_def preorder.simps)
  show ?thesis
    using detectReactComponent_any_depth [OF n1 n2 n3, of "''src/Nested.js''"]
      detectReactComponent_any_depth [OF a1 a2 a3, of "''src/Arrow.js''"]
      detectReactComponent_any_depth [OF b1 b2 b3, of "''src/Inner.js''"]
      detectReactComponent_any_depth [OF c1 c2 c3, of "''src/Class.js''"]
      detectReactComponent_any_depth [OF e1 e2 e3, of "''src/Expr.js''"]
      n4 a4 b4 c4 e4
    by simp
qed

text \<open>The claim as stated restricts the search to top-level declarations; a component
  declared inside another function is found all the same.\<close>

theorem detectReactComponent_top_level_counterexample:
  "parse sample_env (Text src_nested) parserOptions = Inr ast_nested
   \<and> fst (detectReactComponent sample_env (Text src_nested) ''src/Nested.js'') = Inr (Some True)
   \<and> top_level_component ast_nested = False"
  by (simp add: sample_defs script_defs)

text \<open>
  C9 (as amended). For an empty or missing source text \<^verbatim>\<open>detectReactComponent\<close> logs an
  error and returns \<^verbatim>\<open>undefined\<close>, which is not a boolean. For a source that is not empty
  and parses, in which no named function declaration has \<^verbatim>\<open>return;\<close> in its immediate
  body statement list, it returns a boolean.
\<close>

theorem detectReactComponent_boolean_or_undefined:
  "(falsy code \<longrightarrow>
      detectReactComponent env code file_name = (Inr None, [ConsoleErrorNoCode code file_name]))
   \<and> (\<not> falsy code \<and> parse env code parserOptions = Inr ast
        \<and> \<not> list_ex returns_bare (preorder ast)
      \<longrightarrow> (\<exists>b. fst (detectReactComponent env code file_name) = Inr (Some b)))"
proof (intro conjI impI)
  assume "falsy code"
  then show "detectReactComponent env code file_name =
               (Inr None, [ConsoleErrorNoCode code file_name])"
    by (simp add: detectReactComponent_def)
next
  assume "\<not> falsy code \<and> parse env code parserOptions = Inr ast
          \<and> \<not> list_ex returns_bare (preorder ast)"
  then show "\<exists>b. fst (detectReactComponent env code file_name) = Inr (Some b)"
    using detectReactComponent_walk [of code env ast file_name] by simp
qed

theorem detectReactComponent_boolean_or_undefined_witness:
  "detectReactComponent sample_env Undefined ''src/Foo.js'' =
     (Inr None, [ConsoleErrorNoCode Undefined ''src/Foo.js''])
   \<and> (\<exists>b. fst (detectReactComponent sample_env (Text src_plain) ''src/foo.js'') = Inr (Some b))"
proof -
  have h: "\<not> falsy (Text src_plain) \<and> parse sample_env (Text src_plain) parserOptions = Inr ast_plain
           \<and> \<not> list_ex returns_bare (preorder ast_plain)"
    by (simp add: sample_env_def sample_parse_def src_component_def src_plain_def
        ast_plain_def preorder.simps)
  show ?thesis
    using h detectReactComponent_boolean_or_undefined [of Undefined sample_env "''src/Foo.js''"]
      detectReactComponent_boolean_or_undefined
        [of "Text src_plain" sample_env "''src/foo.js''" ast_plain]
    by simp
qed

text \<open>On the empty string the result is \<^verbatim>\<open>undefined\<close>.\<close>

theorem detectReactComponent_empty_counterexample:
  "detectReactComponent sample_env (Text []) ''src/Empty.js'' =
     (Inr None, [ConsoleErrorNoCode (Text []) ''src/Empty.js''])"
  by (simp add: detectReactComponent_def)

text \<open>
  C10. \<^verbatim>\<open>detectReactComponent\<close> is not total on sources that parse: when the first
  statement of the program is a named function declaration whose body starts with
  \<^verbatim>\<open>return;\<close>, as in \<^verbatim>\<open>function Foo() { return; }\<close>, the check reads \<^verbatim>\<open>type\<close> of the
  \<^verbatim>\<open>null\<close> argument and a \<open>TypeError\<close> leaves the function. Only the \<^verbatim>\<open>catch\<close> of
  \<^verbatim>\<open>detectReactComponentInFile\<close> absorbs it: the error is logged there and the file
  yields \<^verbatim>\<open>undefined\<close>.
\<close>

theorem detectReactComponent_bare_return:
  assumes "\<not> falsy code"
    and "parse env code parserOptions =
           Inr (File (Program (FunctionDeclaration (Some name) ps (ReturnStatement None # rest)
                               # others)))"
  shows "detectReactComponent env code file_name = (Inl TypeError, [Parse code parserOptions])
     \<and> (head_ref env = Some r \<and> getContent env (file_request env file_name r) = Inr d
          \<and> content_of env d = Inr code
        \<longrightarrow> detectReactComponentInFile env file_name =
              (Inr None, [GetContent (file_request env file_name r), Parse code parserOptions,
                          ConsoleErrorApi TypeError (file_request env file_name r)]))"
proof -
  have c: "detectReactComponent env code file_name = (Inl TypeError, [Parse code parserOptions])"
    using assms by (simp add: detectReactComponent_def traverse.simps enter_def)
  then show ?thesis
    by (simp add: detectReactComponentInFile_def Let_def)
qed

theorem detectReactComponent_bare_return_witness:
  "detectReactComponent sample_env (Text src_bare) ''src/Bare.js'' =
     (Inl TypeError, [Parse (Text src_bare) parserOptions])
   \<and> detectReactComponentInFile sample_env ''src/Bare.js'' =
      (Inr None, [GetContent (file_request sample_env ''src/Bare.js'' ''feature''),
                  Parse (Text src_bare) parserOptions,
                  ConsoleErrorApi TypeError (file_request sample_env ''src/Bare.js'' ''feature'')])"
proof -
  have h1: "\<not> falsy (Text src_bare)" by (simp add: src_bare_def)
  have h2: "parse sample_env (Text src_bare) parserOptions =
              Inr (File (Program (FunctionDeclaration (Some ''Foo'') [] (ReturnStatement None # [])
                                  # [])))"
    by (simp add: sample_env_def sample_parse_def src_component_def src_plain_def
        src_arrow_def src_bare_def ast_bare_def)
  have h3: "head_ref sample_env = Some ''feature''
            \<and> getContent sample_env (file_request sample_env ''src/Bare.js'' ''feature'') =
                Inr (ContentObject (Some ''ZnVuY3Rpb24gRm9vKCkgeyByZXR1cm47IH0=''))
            \<and> content_of sample_env (ContentObject (Some ''ZnVuY3Rpb24gRm9vKCkgeyByZXR1cm47IH0=''))
                = Inr (Text src_bare)"
    by (simp add: sample_env_def sample_files_def sample_base64_def nodeBase64ToUtf8_def)
  show ?thesis
    using h3 detectReactComponent_bare_return [OF h1 h2, of "''src/Bare.js''" "''feature''"
        "ContentObject (Some ''ZnVuY3Rpb24gRm9vKCkgeyByZXR1cm47IH0='')"]
    by simp
qed

subsection \<open>The loop of \<^verbatim>\<open>detectFunction\<close>\<close>

lemma InFile_no_pull_request:
  "head_ref env = None \<Longrightarrow> detectReactComponentInFile env n = (Inl TypeError, [])"
  by (simp add: detectReactComponentInFile_def)

lemma InFile_returns:
  "head_ref env = Some r \<Longrightarrow> \<exists>res. fst (detectReactComponentInFile env n) = Inr res"
  by (simp add: detectReactComponentInFile_def Let_def split: sum.splits prod.splits)

lemma detect_loop_verdict:
  "head_ref env = Some r \<Longrightarrow>
   fst (detect_loop env fs) =
     Inr (\<exists>f \<in> set fs. fst (detectReactComponentInFile env (filename f)) = Inr (Some True))"
proof (induction fs)
  case Nil
  then show ?case by simp
next
  case (Cons f fs)
  obtain res where res: "fst (detectReactComponentInFile env (filename f)) = Inr res"
    using InFile_returns [OF Cons.prems] by blast
  then obtain evs where "detectReactComponentInFile env (filename f) = (Inr res, evs)"
    by (metis prod.collapse)
  then show ?case using Cons
    by (cases res) (auto split: prod.splits)
qed

lemma detect_loop_none_truthy:
  "\<forall>f \<in> set fs. \<exists>res. fst (detectReactComponentInFile env (filename f)) = Inr res \<and> \<not> truthy res
   \<Longrightarrow> fst (detect_loop env fs) = Inr False"
proof (induction fs)
  case Nil
  then show ?case by simp
next
  case (Cons f fs)
  then obtain res where res:
    "fst (detectReactComponentInFile env (filename f)) = Inr res" "\<not> truthy res"
    by auto
  then obtain evs where "detectReactComponentInFile env (filename f) = (Inr res, evs)"
    by (metis prod.collapse)
  then show ?case using Cons res
    by (auto split: prod.splits)
qed

lemma filterFiles_recognized: "filterFiles f = recognized f"
  by (auto simp: filterFiles_def recognized_def endsWith_def)

text \<open>
  C8. When no changed file has status \<open>added\<close> and a recognized extension, the verdict is
  false and nothing is fetched, parsed or logged: the list of events is empty. More
  generally, when every filtered file returns a result that is not true, the verdict is
  false.
\<close>

theorem detectFunction_nothing_to_scan:
  "((\<forall>f \<in> set changedFiles. \<not> recognized f)
      \<longrightarrow> detectFunction env changedFiles = (Inr False, []))
   \<and> ((\<forall>f \<in> set (filter filterFiles changedFiles).
          \<exists>res. fst (detectReactComponentInFile env (filename f)) = Inr res \<and> \<not> truthy res)
      \<longrightarrow> fst (detectFunction env changedFiles) = Inr False)"
proof (intro conjI impI)
  assume "\<forall>f \<in> set changedFiles. \<not> recognized f"
  then have "filter filterFiles changedFiles = []"
    by (simp add: filterFiles_recognized filter_empty_conv)
  then show "detectFunction env changedFiles = (Inr False, [])"
    by (simp add: detectFunction_def)
next
  assume "\<forall>f \<in> set (filter filterFiles changedFiles).
          \<exists>res. fst (detectReactComponentInFile env (filename f)) = Inr res \<and> \<not> truthy res"
  then show "fst (detectFunction env changedFiles) = Inr False"
    unfolding detectFunction_def by (rule detect_loop_none_truthy)
qed

theorem detectFunction_nothing_to_scan_witness:
  "\<not> recognized (added ''a.py'')
   \<and> detectFunction sample_env [added ''a.py''] = (Inr False, [])
   \<and> fst (detectFunction sample_env
          [added ''src/foo.js'', \<lparr>filename = ''src/Foo.js'', status = ''modified''\<rparr>,
           added ''src/Arrow.js'']) = Inr False"
proof -
  have h1: "\<forall>f \<in> set [added ''a.py'']. \<not> recognized f"
    by (simp add: recognized_def added_def suffix_to_prefix)
  have h2: "\<forall>f \<in> set (filter filterFiles
          [added ''src/foo.js'', \<lparr>filename = ''src/Foo.js'', status = ''modified''\<rparr>,
           added ''src/Arrow.js'']).
          \<exists>res. fst (detectReactComponentInFile sample_env (filename f)) = Inr res \<and> \<not> truthy res"
    by (simp add: sample_defs script_defs)
  show ?thesis
    using h1 h2
      detectFunction_nothing_to_scan [of "[added ''a.py'']" sample_env]
      detectFunction_nothing_to_scan [of "[added ''src/foo.js'',
           \<lparr>filename = ''src/Foo.js'', status = ''modified''\<rparr>, added ''src/Arrow.js'']" sample_env]
    by auto
qed

subsection \<open>Files that fail are skipped\<close>

lemma fst_detect_loop_Cons:
  "fst (detect_loop env (x # xs)) =
     (case fst (detectReactComponentInFile env (filename x)) of
        Inl e \<Rightarrow> Inl e
      | Inr res \<Rightarrow> if truthy res then Inr True else fst (detect_loop env xs))"
  by (simp split: prod.splits sum.splits)

lemma detect_loop_skip:
  assumes "fst (detectReactComponentInFile env (filename f)) = Inr res" and "\<not> truthy res"
  shows "fst (detect_loop env (xs @ f # ys)) = fst (detect_loop env (xs @ ys))"
proof (induction xs)
  case Nil
  show ?case using assms by (simp only: append_Nil fst_detect_loop_Cons) simp
next
  case (Cons x xs)
  show ?case using Cons.IH by (simp only: append_Cons fst_detect_loop_Cons)
qed

lemma detectFunction_skip:
  assumes "fst (detectReactComponentInFile env (filename f)) = Inr res" and "\<not> truthy res"
  shows "fst (detectFunction env (xs @ f # ys)) = fst (detectFunction env (xs @ ys))"
  using detect_loop_skip [OF assms, of "filter filterFiles xs" "filter filterFiles ys"]
  by (simp add: detectFunction_def)

lemma detectFunction_continues:
  assumes "detectReactComponentInFile env (filename f) = (Inr res, evs)" and "\<not> truthy res"
    and "filterFiles f"
  shows "detectFunction env (f # fs) =
           (fst (detectFunction env fs), evs @ snd (detectFunction env fs))"
  using assms by (simp add: detectFunction_def split: prod.splits)

lemma detectFunction_returns:
  "head_ref env = Some r \<Longrightarrow> \<exists>verdict. fst (detectFunction env fs) = Inr verdict"
  by (simp add: detectFunction_def detect_loop_verdict)

text \<open>The script on files of the sample repository.\<close>

lemma sample_head_ref: "head_ref sample_env = Some ''feature''"
  by (simp add: sample_env_def)

lemma sample_Foo:
  "detectReactComponentInFile sample_env ''src/Foo.js'' =
     (Inr (Some True),
      [GetContent (file_request sample_env ''src/Foo.js'' ''feature''),
       Parse (Text src_component) parserOptions, ConsoleLogDetected ''src/Foo.js''])"
  by (simp add: sample_defs script_defs)

lemma sample_foo:
  "detectReactComponentInFile sample_env ''src/foo.js'' =
     (Inr (Some False),
      [GetContent (file_request sample_env ''src/foo.js'' ''feature''),
       Parse (Text src_plain) parserOptions])"
  by (simp add: sample_defs script_defs)

lemma sample_filter:
  "filterFiles (added ''src/Foo.js'')" "filterFiles (added ''src/foo.js'')"
  "filterFiles (added ''src/Missing.js'')" "filterFiles (added ''src/Broken.js'')"
  "filterFiles (added ''src/Bare.js'')" "filterFiles (added ''src/Typed.tsx'')"
  by (simp_all add: filterFiles_def endsWith_def suffix_to_prefix added_def)

lemma filename_added: "filename (added p) = p"
  by (simp add: added_def)

text \<open>
  C3. When the fetch of a file fails, \<^verbatim>\<open>detectReactComponentInFile\<close> catches the error,
  logs it and returns \<^verbatim>\<open>undefined\<close>; \<^verbatim>\<open>detectFunction\<close> goes on with the remaining
  files: its verdict is the one it gives without the file, wherever the file stands in the
  list, the events of the remaining files follow those of the failed fetch, and the call
  returns a verdict rather than failing.
\<close>

theorem fetch_failure_skips_file:
  assumes "head_ref env = Some r"
    and "getContent env (file_request env (filename file) r) = Inl e"
  shows "detectReactComponentInFile env (filename file) =
           (Inr None, [GetContent (file_request env (filename file) r),
                       ConsoleErrorApi e (file_request env (filename file) r)])
     \<and> fst (detectFunction env (before @ file # after)) = fst (detectFunction env (before @ after))
     \<and> (filterFiles file \<longrightarrow>
          detectFunction env (file # after) =
            (fst (detectFunction env after),
             [GetContent (file_request env (filename file) r),
              ConsoleErrorApi e (file_request env (filename file) r)]
             @ snd (detectFunction env after)))
     \<and> (\<exists>verdict. fst (detectFunction env (before @ file # after)) = Inr verdict)"
proof -
  have f: "detectReactComponentInFile env (filename file) =
           (Inr None, [GetContent (file_request env (filename file) r),
                       ConsoleErrorApi e (file_request env (filename file) r)])"
    using assms by (simp add: detectReactComponentInFile_def Let_def)
  then have "fst (detectReactComponentInFile env (filename file)) = Inr None" by simp
  then have "fst (detectFunction env (before @ file # after)) =
             fst (detectFunction env (before @ after))"
    by (rule detectFunction_skip) simp
  moreover have "filterFiles file \<longrightarrow>
          detectFunction env (file # after) =
            (fst (detectFunction env after),
             [GetContent (file_request env (filename file) r),
              ConsoleErrorApi e (file_request env (filename file) r)]
             @ snd (detectFunction env after))"
    using detectFunction_continues [OF f] by simp
  ultimately show ?thesis
    using f detectFunction_returns [OF assms(1)] by simp
qed

theorem fetch_failure_skips_file_witness:
  "detectReactComponentInFile sample_env ''src/Missing.js'' =
     (Inr None, [GetContent (file_request sample_env ''src/Missing.js'' ''feature''),
                 ConsoleErrorApi (HttpError 404)
                   (file_request sample_env ''src/Missing.js'' ''feature'')])
   \<and> fst (detectFunction sample_env
            [added ''src/foo.js'', added ''src/Missing.js'', added ''src/Foo.js'']) = Inr True
   \<and> detectFunction sample_env [added ''src/Missing.js'', added ''src/Foo.js''] =
       (Inr True,
        [GetContent (file_request sample_env ''src/Missing.js'' ''feature''),
         ConsoleErrorApi (HttpError 404) (file_request sample_env ''src/Missing.js'' ''feature''),
         GetContent (file_request sample_env ''src/Foo.js'' ''feature''),
         Parse (Text src_component) parserOptions, ConsoleLogDetected ''src/Foo.js''])"
proof -
  have h: "getContent sample_env
             (file_request sample_env (filename (added ''src/Missing.js'')) ''feature'') =
           Inl (HttpError 404)"
    by (simp add: sample_env_def sample_files_def added_def)
  have r1: "fst (detectFunction sample_env ([added ''src/foo.js''] @ [added ''src/Foo.js''])) =
            Inr True"
    by (simp add: detectFunction_def sample_filter filename_added sample_foo sample_Foo)
  have r2: "detectFunction sample_env [added ''src/Foo.js''] =
            (Inr True,
             [GetContent (file_request sample_env ''src/Foo.js'' ''feature''),
              Parse (Text src_component) parserOptions, ConsoleLogDetected ''src/Foo.js''])"
    by (simp add: detectFunction_def sample_filter filename_added sample_Foo)
  show ?thesis
    using fetch_failure_skips_file [OF sample_head_ref h,
        of "[added ''src/foo.js'']" "[added ''src/Foo.js'']"]
      sample_filter(3) r1 r2
    by (simp add: filename_added)
qed

text \<open>
  C4. When the parser raises an error on the fetched content, the error leaves
  \<^verbatim>\<open>detectReactComponent\<close> as it is, the \<^verbatim>\<open>catch\<close> of \<^verbatim>\<open>detectReactComponentInFile\<close>
  logs it and the file yields \<^verbatim>\<open>undefined\<close>; the scan goes on with the next file and the
  call returns a verdict.
\<close>

theorem parse_failure_skips_file:
  assumes "head_ref env = Some r"
    and "getContent env (file_request env (filename file) r) = Inr d"
    and "content_of env d = Inr code"
    and "\<not> falsy code"
    and "parse env code parserOptions = Inl e"
  shows "detectReactComponent env code (filename file) = (Inl e, [Parse code parserOptions])
     \<and> detectReactComponentInFile env (filename file) =
           (Inr None, [GetContent (file_request env (filename file) r),
                       Parse code parserOptions,
                       ConsoleErrorApi e (file_request env (filename file) r)])
     \<and> fst (detectFunction env (before @ file # after)) = fst (detectFunction env (before @ after))
     \<and> (filterFiles file \<longrightarrow>
          detectFunction env (file # after) =
            (fst (detectFunction env after),
             [GetContent (file_request env (filename file) r),
              Parse code parserOptions,
              ConsoleErrorApi e (file_request env (filename file) r)]
             @ snd (detectFunction env after)))
     \<and> (\<exists>verdict. fst (detectFunction env (before @ file # after)) = Inr verdict)"
proof -
  have c: "detectReactComponent env code (filename file) = (Inl e, [Parse code parserOptions])"
    using assms by (simp add: detectReactComponent_def)
  have f: "detectReactComponentInFile env (filename file) =
           (Inr None, [GetContent (file_request env (filename file) r),
                       Parse code parserOptions,
                       ConsoleErrorApi e (file_request env (filename file) r)])"
    using assms c by (simp add: detectReactComponentInFile_def Let_def)
  then have "fst (detectReactComponentInFile env (filename file)) = Inr None" by simp
  then have "fst (detectFunction env (before @ file # after)) =
             fst (detectFunction env (before @ after))"
    by (rule detectFunction_skip) simp
  moreover have "filterFiles file \<longrightarrow>
          detectFunction env (file # after) =
            (fst (detectFunction env after),
             [GetContent (file_request env (filename file) r),
              Parse code parserOptions,
              ConsoleErrorApi e (file_request env (filename file) r)]
             @ snd (detectFunction env after))"
    using detectFunction_continues [OF f] by simp
  ultimately show ?thesis
    using c f detectFunction_returns [OF assms(1)] by simp
qed

theorem parse_failure_skips_file_witness:
  "detectReactComponent sample_env (Text src_unbalanced) ''src/Broken.js'' =
     (Inl SyntaxError, [Parse (Text src_unbalanced) parserOptions])
   \<and> detectReactComponentInFile sample_env ''src/Broken.js'' =
     (Inr None, [GetContent (file_request sample_env ''src/Broken.js'' ''feature''),
                 Parse (Text src_unbalanced) parserOptions,
                 ConsoleErrorApi SyntaxError
                   (file_request sample_env ''src/Broken.js'' ''feature'')])
   \<and> fst (detectFunction sample_env
            [added ''src/foo.js'', added ''src/Broken.js'', added ''src/Foo.js'']) = Inr True
   \<and> detectFunction sample_env [added ''src/Broken.js'', added ''src/Foo.js''] =
       (Inr True,
        [GetContent (file_request sample_env ''src/Broken.js'' ''feature''),
         Parse (Text src_unbalanced) parserOptions,
         ConsoleErrorApi SyntaxError (file_request sample_env ''src/Broken.js'' ''feature''),
         GetContent (file_request sample_env ''src/Foo.js'' ''feature''),
         Parse (Text src_component) parserOptions, ConsoleLogDetected ''src/Foo.js''])"
proof -
  have h1: "getContent sample_env
              (file_request sample_env (filename (added ''src/Broken.js'')) ''feature'') =
            Inr (ContentObject (Some ''ZnVuY3Rpb24gRm9vKCkgew==''))"
    by (simp add: sample_env_def sample_files_def added_def)
  have h2: "content_of sample_env (ContentObject (Some ''ZnVuY3Rpb24gRm9vKCkgew=='')) =
            Inr (Text src_unbalanced)"
    by (simp add: sample_env_def sample_base64_def nodeBase64ToUtf8_def)
  have h3: "\<not> falsy (Text src_unbalanced)"
    by (simp add: src_unbalanced_def)
  have h4: "parse sample_env (Text src_unbalanced) parserOptions = Inl SyntaxError"
    by (simp add: sample_defs parserOptions_def)
  have r1: "fst (detectFunction sample_env ([added ''src/foo.js''] @ [added ''src/Foo.js''])) =
            Inr True"
    by (simp add: detectFunction_def sample_filter filename_added sample_foo sample_Foo)
  have r2: "detectFunction sample_env [added ''src/Foo.js''] =
            (Inr True,
             [GetContent (file_request sample_env ''src/Foo.js'' ''feature''),
              Parse (Text src_component) parserOptions, ConsoleLogDetected ''src/Foo.js''])"
    by (simp add: detectFunction_def sample_filter filename_added sample_Foo)
  show ?thesis
    using parse_failure_skips_file [OF sample_head_ref h1 h2 h3 h4,
        of "[added ''src/foo.js'']" "[added ''src/Foo.js'']"]
      sample_filter(4) r1 r2
    by (simp add: filename_added)
qed

subsection \<open>The verdict\<close>

lemma detect_loop_no_pull_request:
  "head_ref env = None \<Longrightarrow> fst (detect_loop env fs) \<noteq> Inr True"
  by (cases fs) (simp_all add: InFile_no_pull_request)

text \<open>
  C7. The verdict is monotonic: when detection returns true for a list of changed files, it
  returns true for every list that contains all of its entries.
\<close>

theorem detectFunction_monotone:
  assumes "fst (detectFunction env F) = Inr True" and "set F \<subseteq> set F'"
  shows "fst (detectFunction env F') = Inr True"
proof (cases "head_ref env")
  case None
  then show ?thesis
    using assms(1) detect_loop_no_pull_request [of env "filter filterFiles F"]
    by (simp add: detectFunction_def)
next
  case (Some r)
  from assms(1) obtain f where "f \<in> set (filter filterFiles F)"
    and "fst (detectReactComponentInFile env (filename f)) = Inr (Some True)"
    by (auto simp: detectFunction_def detect_loop_verdict [OF Some])
  moreover from this assms(2) have "f \<in> set (filter filterFiles F')" by auto
  ultimately show ?thesis
    unfolding detectFunction_def detect_loop_verdict [OF Some] by auto
qed

theorem detectFunction_monotone_witness:
  "fst (detectFunction sample_env [added ''src/Foo.js'']) = Inr True
   \<and> fst (detectFunction sample_env
            [added ''src/Bare.js'', added ''src/Foo.js'', added ''src/Missing.js'']) = Inr True"
proof -
  have h1: "fst (detectFunction sample_env [added ''src/Foo.js'']) = Inr True"
    by (simp add: detectFunction_def sample_filter filename_added sample_Foo)
  have h2: "set [added ''src/Foo.js'']
            \<subseteq> set [added ''src/Bare.js'', added ''src/Foo.js'', added ''src/Missing.js'']"
    by simp
  show ?thesis
    using h1 detectFunction_monotone [OF h1 h2] by simp
qed

lemma truthy_iff: "truthy res \<longleftrightarrow> res = Some True"
  by (cases res) auto

lemma fetched_append: "fetched (xs @ ys) = fetched xs @ fetched ys"
  by (induction xs rule: fetched.induct) simp_all

lemma enter_console:
  "enter (FunctionDeclaration_handler f) n w = (r, w') \<Longrightarrow> fetched (console w') = fetched (console w)"
  by (cases n) (auto simp: enter_def fetched_append split: if_splits sum.splits)

lemma walk_console:
  "traverse_list (enter (FunctionDeclaration_handler f)) ns w = (r, w')
   \<Longrightarrow> fetched (console w') = fetched (console w)"
proof (induction ns arbitrary: w)
  case Nil
  then show ?case by simp
next
  case (Cons n ns)
  obtain r1 w1 where e: "enter (FunctionDeclaration_handler f) n w = (r1, w1)"
    by (cases "enter (FunctionDeclaration_handler f) n w")
  then have "fetched (console w1) = fetched (console w)" by (rule enter_console)
  then show ?case using Cons e by (cases r1) auto
qed

lemma detectReactComponent_fetches_nothing:
  "fetched (snd (detectReactComponent env code f)) = []"
proof -
  have "fetched (console w') = []"
    if "traverse (FunctionDeclaration_handler f) ast \<lparr>isReactComponent = False, console = []\<rparr> = (r, w')"
    for ast r w'
    using walk_console [of f "preorder ast" _ r w'] that by (simp add: traverse_preorder)
  then show ?thesis
    by (auto simp: detectReactComponent_def split: sum.splits prod.splits option.splits)
qed

lemma detectReactComponent_fetches_nothing':
  "detectReactComponent env code f = (res, evs) \<Longrightarrow> fetched evs = []"
  using detectReactComponent_fetches_nothing [of env code f] by simp

lemma InFile_fetches_once:
  "head_ref env = Some r \<Longrightarrow> fetched (snd (detectReactComponentInFile env n)) = [n]"
  by (auto simp: detectReactComponentInFile_def Let_def fetched_append
      split: sum.splits prod.splits dest: detectReactComponent_fetches_nothing')

lemma detect_loop_short_circuit:
  assumes "\<forall>g \<in> set pre. fst (detectReactComponentInFile env (filename g)) \<noteq> Inr (Some True)"
    and "fst (detectReactComponentInFile env (filename file)) = Inr (Some True)"
  shows "detect_loop env (pre @ file # post) =
           (Inr True, concat (map (\<lambda>g. snd (detectReactComponentInFile env (filename g)))
                                (pre @ [file])))"
  using assms(1)
proof (induction pre)
  case Nil
  obtain evs where "detectReactComponentInFile env (filename file) = (Inr (Some True), evs)"
    using assms(2) by (metis prod.collapse)
  then show ?case by simp
next
  case (Cons g pre)
  obtain r where r: "head_ref env = Some r"
    using assms(2) InFile_no_pull_request [of env "filename file"]
    by (cases "head_ref env") auto
  obtain res where res: "fst (detectReactComponentInFile env (filename g)) = Inr res"
    using InFile_returns [OF r] by blast
  then obtain evs where evs: "detectReactComponentInFile env (filename g) = (Inr res, evs)"
    by (metis prod.collapse)
  have "\<not> truthy res" using Cons.prems res by (simp add: truthy_iff)
  then show ?case using Cons evs by simp
qed

lemma fetched_concat: "fetched (concat xss) = concat (map fetched xss)"
  by (induction xss) (simp_all add: fetched_append)

text \<open>
  C5. When a filtered file is the first whose result is true, \<^verbatim>\<open>detectFunction\<close> returns
  true with the events of the filtered files up to and including that file, and of no
  other: the files after it are neither fetched nor parsed. The paths fetched are those of
  the filtered files up to that file, once each.
\<close>

theorem detectFunction_short_circuit:
  assumes "filter filterFiles changedFiles = pre @ file # post"
    and "\<forall>g \<in> set pre. fst (detectReactComponentInFile env (filename g)) \<noteq> Inr (Some True)"
    and "fst (detectReactComponentInFile env (filename file)) = Inr (Some True)"
  shows "detectFunction env changedFiles =
           (Inr True, concat (map (\<lambda>g. snd (detectReactComponentInFile env (filename g)))
                                (pre @ [file])))
     \<and> fetched (snd (detectFunction env changedFiles)) = map filename (pre @ [file])"
proof -
  obtain r where r: "head_ref env = Some r"
    using assms(3) InFile_no_pull_request [of env "filename file"]
    by (cases "head_ref env") auto
  have d: "detectFunction env changedFiles =
           (Inr True, concat (map (\<lambda>g. snd (detectReactComponentInFile env (filename g)))
                                (pre @ [file])))"
    unfolding detectFunction_def assms(1)
    by (rule detect_loop_short_circuit [OF assms(2,3)])
  have "concat (map (\<lambda>g. fetched (snd (detectReactComponentInFile env (filename g)))) gs) =
        map filename gs" for gs :: "changed_file list"
    by (induction gs) (simp_all add: InFile_fetches_once [OF r])
  then show ?thesis
    using d by (simp add: fetched_concat comp_def del: map_append)
qed

theorem detectFunction_short_circuit_witness:
  "detectFunction sample_env
     [added ''src/foo.js'', added ''README.md'', added ''src/Foo.js'', added ''src/Bare.js''] =
     (Inr True,
      [GetContent (file_request sample_env ''src/foo.js'' ''feature''),
       Parse (Text src_plain) parserOptions,
       GetContent (file_request sample_env ''src/Foo.js'' ''feature''),
       Parse (Text src_component) parserOptions, ConsoleLogDetected ''src/Foo.js''])
   \<and> fetched (snd (detectFunction sample_env
        [added ''src/foo.js'', added ''README.md'', added ''src/Foo.js'', added ''src/Bare.js'']))
      = [''src/foo.js'', ''src/Foo.js'']"
proof -
  have h1: "filter filterFiles
              [added ''src/foo.js'', added ''README.md'', added ''src/Foo.js'',
               added ''src/Bare.js''] =
            [added ''src/foo.js''] @ added ''src/Foo.js'' # [added ''src/Bare.js'']"
    by (simp add: filterFiles_def endsWith_def suffix_to_prefix added_def)
  have h2: "\<forall>g \<in> set [added ''src/foo.js''].
              fst (detectReactComponentInFile sample_env (filename g)) \<noteq> Inr (Some True)"
    by (simp add: filename_added sample_foo)
  have h3: "fst (detectReactComponentInFile sample_env (filename (added ''src/Foo.js''))) =
            Inr (Some True)"
    by (simp add: filename_added sample_Foo)
  show ?thesis
    using detectFunction_short_circuit [OF h1 h2 h3]
    by (simp add: filename_added sample_foo sample_Foo)
qed

subsection \<open>The filter\<close>

text \<open>
  C6 (as amended). For every list of changed files, the empty one included, the output of
  the filter is a subsequence of its input in the input's order, equal to the input when
  every entry qualifies, and so not always a strict subset; it is no longer than the input,
  and its entries are exactly the entries of the input whose status is \<open>added\<close> and whose
  path ends, letter case included, with \<open>.js\<close>, \<open>.jsx\<close>, \<open>.ts\<close> or \<open>.tsx\<close>. The
  filter is a function of its input alone and produces no event.
\<close>

theorem filterFiles_subsequence:
  "subseq (filter filterFiles changedFiles) changedFiles
   \<and> length (filter filterFiles changedFiles) \<le> length changedFiles
   \<and> (\<forall>f. f \<in> set (filter filterFiles changedFiles) \<longleftrightarrow>
          f \<in> set changedFiles \<and> status f = ''added''
          \<and> (suffix ''.js'' (filename f) \<or> suffix ''.jsx'' (filename f)
             \<or> suffix ''.ts'' (filename f) \<or> suffix ''.tsx'' (filename f)))"
  by (auto simp: filterFiles_def endsWith_def)

theorem filterFiles_subsequence_witness:
  "filter filterFiles
     [added ''README.md'', added ''src/Foo.js'',
      \<lparr>filename = ''src/foo.js'', status = ''modified''\<rparr>,
      added ''src/Typed.tsx'', added ''src/SHOUT.JS''] =
     [added ''src/Foo.js'', added ''src/Typed.tsx'']
   \<and> subseq [added ''src/Foo.js'', added ''src/Typed.tsx'']
        [added ''README.md'', added ''src/Foo.js'',
         \<lparr>filename = ''src/foo.js'', status = ''modified''\<rparr>,
         added ''src/Typed.tsx'', added ''src/SHOUT.JS'']
   \<and> added ''src/SHOUT.JS'' \<notin> set (filter filterFiles
        [added ''README.md'', added ''src/Foo.js'',
         \<lparr>filename = ''src/foo.js'', status = ''modified''\<rparr>,
         added ''src/Typed.tsx'', added ''src/SHOUT.JS''])"
proof -
  have e: "filter filterFiles
     [added ''README.md'', added ''src/Foo.js'',
      \<lparr>filename = ''src/foo.js'', status = ''modified''\<rparr>,
      added ''src/Typed.tsx'', added ''src/SHOUT.JS''] =
     [added ''src/Foo.js'', added ''src/Typed.tsx'']"
    by (simp add: filterFiles_def endsWith_def suffix_to_prefix added_def)
  have n: "\<not> suffix ''.js'' (filename (added ''src/SHOUT.JS''))"
    "\<not> suffix ''.jsx'' (filename (added ''src/SHOUT.JS''))"
    "\<not> suffix ''.ts'' (filename (added ''src/SHOUT.JS''))"
    "\<not> suffix ''.tsx'' (filename (added ''src/SHOUT.JS''))"
    by (simp_all add: suffix_to_prefix added_def)
  show ?thesis
    using filterFiles_subsequence [of "[added ''README.md'', added ''src/Foo.js'',
      \<lparr>filename = ''src/foo.js'', status = ''modified''\<rparr>,
      added ''src/Typed.tsx'', added ''src/SHOUT.JS'']"] n
    unfolding e by blast
qed

text \<open>When every entry qualifies, and on the empty list, the output is the whole input.\<close>

theorem filterFiles_strict_subset_counterexample:
  "filter filterFiles [added ''src/Foo.js''] = [added ''src/Foo.js'']
   \<and> \<not> set (filter filterFiles [added ''src/Foo.js'']) \<subset> set [added ''src/Foo.js'']
   \<and> \<not> set (filter filterFiles []) \<subset> set ([] :: changed_file list)"
  by (simp add: filterFiles_def endsWith_def suffix_to_prefix added_def)

subsection \<open>The parser's options\<close>

text \<open>
  C2. The script enables the \<open>jsx\<close> plugin only. Whenever the parser rejects a source
  unless the \<open>typescript\<close> plugin is enabled, as it does for type annotations,
  \<^verbatim>\<open>detectReactComponent\<close> throws the parser's \<open>SyntaxError\<close> on that source, although
  the filter lets \<open>.ts\<close> and \<open>.tsx\<close> files through.
\<close>

theorem detectReactComponent_typescript_not_enabled:
  assumes "\<not> falsy code"
    and "\<forall>opts. ''typescript'' \<notin> set (plugins opts) \<longrightarrow> parse env code opts = Inl SyntaxError"
  shows "plugins parserOptions = [''jsx'']
     \<and> detectReactComponent env code file_name = (Inl SyntaxError, [Parse code parserOptions])"
proof -
  have p: "plugins parserOptions = [''jsx'']" by (simp add: parserOptions_def)
  then have "''typescript'' \<notin> set (plugins parserOptions)" by simp
  then have "parse env code parserOptions = Inl SyntaxError" using assms(2) by blast
  then show ?thesis using assms(1) p by (simp add: detectReactComponent_def)
qed

theorem detectReactComponent_typescript_not_enabled_witness:
  "filterFiles (added ''src/Typed.tsx'')
   \<and> parse sample_env (Text src_typed) \<lparr>sourceType = ''module'', plugins = [''jsx'', ''typescript'']\<rparr>
       = Inr ast_typed
   \<and> detectReactComponent sample_env (Text src_typed) ''src/Typed.tsx'' =
       (Inl SyntaxError, [Parse (Text src_typed) parserOptions])"
proof -
  have h1: "\<not> falsy (Text src_typed)" by (simp add: src_typed_def)
  have h2: "\<forall>opts. ''typescript'' \<notin> set (plugins opts)
              \<longrightarrow> parse sample_env (Text src_typed) opts = Inl SyntaxError"
    by (simp add: sample_env_def sample_parse_def src_component_def src_plain_def
        src_arrow_def src_bare_def src_nested_def src_typed_def src_inner_block_def
        src_class_def src_function_expression_def)
  have h3: "parse sample_env (Text src_typed)
              \<lparr>sourceType = ''module'', plugins = [''jsx'', ''typescript'']\<rparr> = Inr ast_typed"
    by (simp add: sample_env_def sample_parse_def src_component_def src_plain_def
        src_arrow_def src_bare_def src_nested_def src_typed_def src_inner_block_def
        src_class_def src_function_expression_def)
  show ?thesis
    using detectReactComponent_typescript_not_enabled [OF h1 h2, of "''src/Typed.tsx''"]
      h3 sample_filter(6)
    by simp
qed

end
